theory Spec2Isabelle
  imports Complex_Main "HOL-Library.Multiset"
begin

section \<open>JavaScript values and strings\<close>

text \<open>
  The script reads spreadsheet cells (\<^verbatim>\<open>getDataRange().getValues()\<close>) and receives
  arguments from the web client. A value is one of the JavaScript primitives below.
  Numeric cells are modelled for integer values only (fractions are floating point);
  date-valued cells are not modelled. An empty cell is the empty string, and reading
  a row beyond its width gives \<open>Undefined\<close>.

  A string is the list of its characters. Case mapping and white space are the ASCII
  ones: \<^verbatim>\<open>toLowerCase\<close> and \<^verbatim>\<open>toUpperCase\<close> act on the letters A-Z and a-z and
  leave every other character alone, and \<^verbatim>\<open>trim\<close> removes tab, line feed,
  vertical tab, form feed, carriage return and space.
\<close>

datatype jsval = Undefined | Null | Str string | Num int | Bool bool

datatype jsError = TypeError

definition upperLetters :: string where
  "upperLetters = ''ABCDEFGHIJKLMNOPQRSTUVWXYZ''"

definition lowerLetters :: string where
  "lowerLetters = ''abcdefghijklmnopqrstuvwxyz''"

definition lowerChar :: "char \<Rightarrow> char" where
  "lowerChar c = (case map_of (zip upperLetters lowerLetters) c of Some d \<Rightarrow> d | None \<Rightarrow> c)"

definition upperChar :: "char \<Rightarrow> char" where
  "upperChar c = (case map_of (zip lowerLetters upperLetters) c of Some d \<Rightarrow> d | None \<Rightarrow> c)"

definition toLowerCase :: "string \<Rightarrow> string" where
  "toLowerCase s = map lowerChar s"

definition toUpperCase :: "string \<Rightarrow> string" where
  "toUpperCase s = map upperChar s"

definition isSpace :: "char \<Rightarrow> bool" where
  "isSpace c = (c \<in> set [CHR 0x09, CHR 0x0A, CHR 0x0B, CHR 0x0C, CHR 0x0D, CHR '' ''])"

definition trim :: "string \<Rightarrow> string" where
  "trim s = rev (dropWhile isSpace (rev (dropWhile isSpace s)))"

definition startsWith :: "string \<Rightarrow> string \<Rightarrow> bool" where
  "startsWith s p = (take (length p) s = p)"

text \<open>\<^verbatim>\<open>s.includes(p)\<close>: \<open>p\<close> occurs in \<open>s\<close> as a contiguous substring.\<close>

primrec includesStr :: "string \<Rightarrow> string \<Rightarrow> bool" where
  "includesStr [] p = (p = [])"
| "includesStr (c # s) p = (startsWith (c # s) p \<or> includesStr s p)"

text \<open>\<^verbatim>\<open>s.split(c)\<close> for a one-character separator: never empty, \<^verbatim>\<open>"".split(c)\<close> is \<^verbatim>\<open>[""]\<close>.\<close>

fun splitStr :: "char \<Rightarrow> string \<Rightarrow> string list" where
  "splitStr c [] = [[]]"
| "splitStr c (x # xs) =
     (if x = c then [] # splitStr c xs
      else (case splitStr c xs of [] \<Rightarrow> [[x]] | p # ps \<Rightarrow> (x # p) # ps))"

definition digitChars :: string where
  "digitChars = ''0123456789''"

definition isDigit :: "char \<Rightarrow> bool" where
  "isDigit c = (c \<in> set digitChars)"

definition digitVal :: "char \<Rightarrow> nat" where
  "digitVal c = (case map_of (zip digitChars [0, 1, 2, 3, 4, 5, 6, 7, 8, 9]) c of Some d \<Rightarrow> d | None \<Rightarrow> 0)"

definition digitsValue :: "string \<Rightarrow> nat" where
  "digitsValue ds = foldl (\<lambda>a c. 10 * a + digitVal c) 0 ds"

function showNat :: "nat \<Rightarrow> string" where
  "showNat n = (if n < 10 then [digitChars ! n] else showNat (n div 10) @ [digitChars ! (n mod 10)])"
  by pat_completeness auto
termination
  by (relation "measure id") auto

declare showNat.simps [simp del]

definition showInt :: "int \<Rightarrow> string" where
  "showInt n = (if n < 0 then CHR ''-'' # showNat (nat (- n)) else showNat (nat n))"

text \<open>\<^verbatim>\<open>String(v)\<close> / \<^verbatim>\<open>v.toString()\<close> on a value that has the method.\<close>

fun jsToString :: "jsval \<Rightarrow> string" where
  "jsToString Undefined = ''undefined''"
| "jsToString Null = ''null''"
| "jsToString (Str s) = s"
| "jsToString (Num n) = showInt n"
| "jsToString (Bool b) = (if b then ''true'' else ''false'')"

text \<open>Truthiness, as tested by \<^verbatim>\<open>!v\<close>, \<^verbatim>\<open>v && ...\<close>, \<^verbatim>\<open>v || ...\<close> and \<^verbatim>\<open>v ? a : b\<close>.\<close>

fun truthy :: "jsval \<Rightarrow> bool" where
  "truthy Undefined = False"
| "truthy Null = False"
| "truthy (Str s) = (s \<noteq> [])"
| "truthy (Num n) = (n \<noteq> 0)"
| "truthy (Bool b) = b"

definition orElse :: "jsval \<Rightarrow> jsval \<Rightarrow> jsval" where
  "orElse a b = (if truthy a then a else b)"

text \<open>\<^verbatim>\<open>row[k]\<close>: \<open>Undefined\<close> beyond the end of the row.\<close>

definition cellAt :: "jsval list \<Rightarrow> nat \<Rightarrow> jsval" where
  "cellAt row k = (if k < length row then row ! k else Undefined)"

text \<open>
  \<^verbatim>\<open>parseInt(v, 10)\<close>: the value is converted to a string, leading white space and one
  sign are skipped, and the longest prefix of decimal digits is read. \<open>None\<close> is NaN.
  The result is exact (no rounding to a double).
\<close>

definition parseInt :: "jsval \<Rightarrow> int option" where
  "parseInt v =
     (let s = dropWhile isSpace (jsToString v);
          neg = (take 1 s = ''-'');
          r = (if take 1 s = ''-'' \<or> take 1 s = ''+'' then drop 1 s else s);
          ds = takeWhile isDigit r
      in if ds = [] then None
         else Some (if neg then - int (digitsValue ds) else int (digitsValue ds)))"

section \<open>Configuration\<close>

definition CONTINUE :: string where "CONTINUE = ''continue''"
definition NEXT_QUESTION :: string where "NEXT_QUESTION = ''next_question''"
definition IF_CORRECT :: string where "IF_CORRECT = ''if_correct''"
definition IF_INCORRECT :: string where "IF_INCORRECT = ''if_incorrect''"
definition END :: string where "END = ''end''"

section \<open>The action resolver: parseNextAction\<close>

record nextActionData =
  action :: string
  param :: jsval

text \<open>
  \<^verbatim>\<open>nextAction.split(':')[1].trim()\<close>: the second piece of the split; a missing piece
  is \<^verbatim>\<open>undefined\<close>, and calling \<^verbatim>\<open>trim\<close> on it throws.
\<close>

definition secondPieceTrimmed :: "string \<Rightarrow> jsError + string" where
  "secondPieceTrimmed s =
     (case splitStr (CHR '':'') s of
        _ # p # _ \<Rightarrow> Inr (trim p)
      | _ \<Rightarrow> Inl TypeError)"

text \<open>
  The argument is whatever the cell held. A truthy value that is not a string is not found
  by \<^verbatim>\<open>includes\<close> (strict equality) and has no \<^verbatim>\<open>startsWith\<close> method: TypeError.
\<close>

definition parseNextAction :: "jsval \<Rightarrow> jsError + nextActionData" where
  "parseNextAction nextAction =
     (if \<not> truthy nextAction then Inr \<lparr>action = CONTINUE, param = Null\<rparr>
      else case nextAction of
        Str s \<Rightarrow>
          if s \<in> set [CONTINUE, NEXT_QUESTION, END] then Inr \<lparr>action = s, param = Null\<rparr>
          else if startsWith s (IF_CORRECT @ '':'') then
            (case secondPieceTrimmed s of
               Inl e \<Rightarrow> Inl e
             | Inr p \<Rightarrow> Inr \<lparr>action = IF_CORRECT, param = Str p\<rparr>)
          else if startsWith s (IF_INCORRECT @ '':'') then
            (case secondPieceTrimmed s of
               Inl e \<Rightarrow> Inl e
             | Inr p \<Rightarrow> Inr \<lparr>action = IF_INCORRECT, param = Str p\<rparr>)
          else Inr \<lparr>action = CONTINUE, param = Null\<rparr>
      | _ \<Rightarrow> Inl TypeError)"

text \<open>
  The grammar as the specification words it: the parameter is everything after the first
  colon, trimmed.
\<close>

definition afterFirstColon :: "string \<Rightarrow> string" where
  "afterFirstColon s = drop 1 (dropWhile (\<lambda>c. c \<noteq> CHR '':'') s)"

definition parseNextActionSpec :: "string \<Rightarrow> nextActionData" where
  "parseNextActionSpec s =
     (if s = [] then \<lparr>action = ''continue'', param = Null\<rparr>
      else if s = ''continue'' \<or> s = ''next_question'' \<or> s = ''end'' then \<lparr>action = s, param = Null\<rparr>
      else if startsWith s ''if_correct:'' then
        \<lparr>action = ''if_correct'', param = Str (trim (afterFirstColon s))\<rparr>
      else if startsWith s ''if_incorrect:'' then
        \<lparr>action = ''if_incorrect'', param = Str (trim (afterFirstColon s))\<rparr>
      else \<lparr>action = ''continue'', param = Null\<rparr>)"

text \<open>What the code reads instead: the text between the first colon and the next one.\<close>

definition firstColonSegment :: "string \<Rightarrow> string" where
  "firstColonSegment s = takeWhile (\<lambda>c. c \<noteq> CHR '':'') (afterFirstColon s)"

section \<open>Application settings\<close>

text \<open>
  The Settings sheet is the list of its rows; row 0 is the header. The sheet is a plain
  table: \<^verbatim>\<open>appendRow\<close> adds the row it is given after the last one, and
  \<^verbatim>\<open>getValues\<close> gives the rows back as they were stored. \<open>None\<close> is a spreadsheet
  without the sheet.

  A settings object is the list of its own properties in enumeration order.
\<close>

type_synonym sheet = "jsval list list"

text \<open>\<^verbatim>\<open>v.toString()\<close>: \<^verbatim>\<open>undefined\<close> and \<^verbatim>\<open>null\<close> have no methods.\<close>

definition toStringMethod :: "jsval \<Rightarrow> jsError + string" where
  "toStringMethod v =
     (case v of Undefined \<Rightarrow> Inl TypeError | Null \<Rightarrow> Inl TypeError | _ \<Rightarrow> Inr (jsToString v))"

text \<open>
  The loop \<^verbatim>\<open>for (const setting in settings) appendRow([setting, settings[setting].toString()])\<close>.
  An exception leaves the rows appended so far in the sheet.
\<close>

fun appendSettings :: "sheet \<Rightarrow> (string \<times> jsval) list \<Rightarrow> jsError option \<times> sheet" where
  "appendSettings sh [] = (None, sh)"
| "appendSettings sh ((setting, v) # rest) =
     (case toStringMethod v of
        Inl e \<Rightarrow> (Some e, sh)
      | Inr s \<Rightarrow> appendSettings (sh @ [[Str setting, Str s]]) rest)"

text \<open>
  The result is the error caught, if any (\<open>None\<close> is the success object), and the sheet
  after the call.
\<close>

definition updateAppSettings :: "sheet option \<Rightarrow> (string \<times> jsval) list \<Rightarrow> jsError option \<times> sheet option" where
  "updateAppSettings settingsSheet settings =
     (let sh0 = (case settingsSheet of
                   None \<Rightarrow> [[Str ''Setting'', Str ''Value'', Str ''Description'']]
                 | Some sh \<Rightarrow> sh);
          lastRow = length sh0;
          sh1 = (if lastRow > 1 then take 1 sh0 else sh0);
          (r, sh2) = appendSettings sh1 settings
      in (r, Some sh2))"

text \<open>
  \<^verbatim>\<open>settings[k] = v\<close> on a plain object, for a primitive \<open>v\<close>: the key is converted to a
  string; assigning \<^verbatim>\<open>__proto__\<close> creates no property.
\<close>

definition setProp :: "(string \<rightharpoonup> jsval) \<Rightarrow> jsval \<Rightarrow> jsval \<Rightarrow> (string \<rightharpoonup> jsval)" where
  "setProp obj k v = (if jsToString k = ''__proto__'' then obj else obj(jsToString k \<mapsto> v))"

definition getDefaultSettings :: "string \<rightharpoonup> jsval" where
  "getDefaultSettings = map_of
     [(''TeacherModeEnabled'', Bool True),
      (''AllowNotes'', Bool True),
      (''ShowProgressBar'', Bool True),
      (''ShowStudentReport'', Bool True),
      (''PrimaryColor'', Str ''#4285f4''),
      (''SecondaryColor'', Str ''#34a853''),
      (''AllowSkipping'', Bool False),
      (''RequireCorrectAnswers'', Bool False)]"

fun readSettings :: "sheet \<Rightarrow> (string \<rightharpoonup> jsval) \<Rightarrow> (string \<rightharpoonup> jsval)" where
  "readSettings [] settings = settings"
| "readSettings (row # rows) settings =
     (let setting = cellAt row 0;
          v = cellAt row 1
      in readSettings rows
           (if v = Str ''TRUE'' \<or> v = Str ''FALSE''
            then setProp settings setting (Bool (v = Str ''TRUE''))
            else setProp settings setting v))"

definition getAppSettings :: "sheet option \<Rightarrow> (string \<rightharpoonup> jsval)" where
  "getAppSettings settingsSheet =
     (case settingsSheet of
        None \<Rightarrow> getDefaultSettings
      | Some settingsData \<Rightarrow> readSettings (drop 1 settingsData) Map.empty)"

section \<open>The option shuffler: shuffleArray\<close>

text \<open>
  \<^verbatim>\<open>Math.random\<close> is the one source of nondeterminism. A generator is the sequence of
  its future draws; \<^verbatim>\<open>Math.floor(Math.random() * n)\<close> takes the next draw, reduced to
  \<open>0 \<dots> n - 1\<close>, so every index in that range can come out.
\<close>

type_synonym rng = "nat \<Rightarrow> nat"

definition randomBelow :: "nat \<Rightarrow> rng \<Rightarrow> nat \<times> rng" where
  "randomBelow n g = (g 0 mod n, \<lambda>k. g (Suc k))"

text \<open>\<^verbatim>\<open>[a[i], a[j]] = [a[j], a[i]]\<close>\<close>

definition swapAt :: "nat \<Rightarrow> nat \<Rightarrow> 'a list \<Rightarrow> 'a list" where
  "swapAt i j a = a[i := a ! j, j := a ! i]"

text \<open>
  Arrays are objects: a variable holds a reference. A heap is the list of the arrays
  allocated so far and a reference is an index into it. \<^verbatim>\<open>[...array]\<close> allocates a copy;
  the loop \<^verbatim>\<open>for (i = length - 1; i > 0; i--)\<close> swaps inside the copy.
\<close>

fun shuffleLoop :: "nat \<Rightarrow> nat \<Rightarrow> 'a list list \<Rightarrow> rng \<Rightarrow> 'a list list \<times> rng" where
  "shuffleLoop newArray 0 heap g = (heap, g)"
| "shuffleLoop newArray (Suc k) heap g =
     (let (j, g') = randomBelow (Suc k + 1) g
      in shuffleLoop newArray k (heap[newArray := swapAt (Suc k) j (heap ! newArray)]) g')"

definition shuffleArray :: "'a list list \<Rightarrow> nat \<Rightarrow> rng \<Rightarrow> nat \<times> 'a list list \<times> rng" where
  "shuffleArray heap array g =
     (let newArray = length heap;
          heap1 = heap @ [heap ! array];
          (heap2, g') = shuffleLoop newArray (length (heap1 ! newArray) - 1) heap1 g
      in (newArray, heap2, g'))"

text \<open>
  The same function on array values, for callers that drop the argument array after the
  call (\<^verbatim>\<open>overlay.options = shuffleArray(overlay.options)\<close>).
\<close>

fun shuffleSteps :: "nat \<Rightarrow> 'a list \<Rightarrow> rng \<Rightarrow> 'a list \<times> rng" where
  "shuffleSteps 0 a g = (a, g)"
| "shuffleSteps (Suc k) a g =
     (let (j, g') = randomBelow (Suc k + 1) g
      in shuffleSteps k (swapAt (Suc k) j a) g')"

definition shuffled :: "'a list \<Rightarrow> rng \<Rightarrow> 'a list \<times> rng" where
  "shuffled a g = shuffleSteps (length a - 1) a g"

section \<open>The row parser\<close>

text \<open>
  Field names follow the script's objects; \<^verbatim>\<open>id\<close>, \<^verbatim>\<open>type\<close>, \<^verbatim>\<open>text\<close> and
  \<^verbatim>\<open>image\<close> carry a suffix. The \<^verbatim>\<open>overlaysByTitle\<close> index of the result is not
  modelled.
\<close>

record quizOption =
  text_opt :: jsval
  isCorrect :: bool
  feedback :: jsval

record imageData =
  url :: jsval
  width :: jsval
  height :: jsval

record overlay =
  id_ov :: string
  timestamp :: int
  title :: jsval
  content :: jsval
  type_ov :: string
  nextAction :: string
  actionParam :: jsval
  options :: "quizOption list"
  explanation :: jsval
  correctFeedback :: jsval
  incorrectFeedback :: jsval
  groupName :: jsval
  image_ov :: "imageData option"

text \<open>\<^verbatim>\<open>row[4] ? row[4].toLowerCase() : 'info'\<close>: only strings have the method.\<close>

definition typeOfCell :: "jsval \<Rightarrow> jsError + string" where
  "typeOfCell c =
     (if truthy c then (case c of Str s \<Rightarrow> Inr (toLowerCase s) | _ \<Rightarrow> Inl TypeError)
      else Inr ''info'')"

definition isQuestionType :: "string \<Rightarrow> bool" where
  "isQuestionType t = (includesStr t ''quiz'' \<or> includesStr t ''true_false'')"

text \<open>One option per non-blank piece of \<^verbatim>\<open>correctAnswer.toString().split('|')\<close>.\<close>

definition correctOptions :: "jsval \<Rightarrow> jsval \<Rightarrow> quizOption list" where
  "correctOptions correctAnswer correctFb =
     map (\<lambda>answer. \<lparr>text_opt = Str (trim answer), isCorrect = True,
                     feedback = orElse correctFb (Str ''Correct!'')\<rparr>)
         (filter (\<lambda>answer. trim answer \<noteq> [])
                 (splitStr (CHR ''|'') (jsToString correctAnswer)))"

text \<open>Columns H, I, J: the cell itself becomes the option text, neither trimmed nor converted.\<close>

definition incorrectOptions :: "jsval list \<Rightarrow> jsval \<Rightarrow> quizOption list" where
  "incorrectOptions row incorrectFb =
     map (\<lambda>j. \<lparr>text_opt = cellAt row j, isCorrect = False,
                feedback = orElse incorrectFb (Str ''Incorrect.'')\<rparr>)
         (filter (\<lambda>j. truthy (cellAt row j) \<and> trim (jsToString (cellAt row j)) \<noteq> [])
                 [7, 8, 9])"

text \<open>
  The \<^verbatim>\<open>forEach\<close> that looks for a TRUE and a FALSE option; \<^verbatim>\<open>option.text.toUpperCase()\<close>
  throws on a text that is not a string.
\<close>

fun scanTrueFalse :: "quizOption list \<Rightarrow> bool \<times> bool \<Rightarrow> jsError + (bool \<times> bool)" where
  "scanTrueFalse [] flags = Inr flags"
| "scanTrueFalse (option # rest) (hasTrueOption, hasFalseOption) =
     (case text_opt option of
        Str s \<Rightarrow> scanTrueFalse rest
                   (hasTrueOption \<or> toUpperCase s = ''TRUE'', hasFalseOption \<or> toUpperCase s = ''FALSE'')
      | _ \<Rightarrow> Inl TypeError)"

definition missingOption :: "string \<Rightarrow> jsval \<Rightarrow> quizOption" where
  "missingOption t incorrectFb =
     \<lparr>text_opt = Str t, isCorrect = False, feedback = orElse incorrectFb (Str ''Incorrect.'')\<rparr>"

definition quizOptions :: "string \<Rightarrow> jsval list \<Rightarrow> jsval \<Rightarrow> jsval \<Rightarrow> rng \<Rightarrow> jsError + (quizOption list \<times> rng)" where
  "quizOptions type row correctFb incorrectFb g =
     (if includesStr type ''quiz'' \<or> includesStr type ''true_false'' then
        (let correctAnswer = cellAt row 6
         in if truthy correctAnswer then
              (let opts = correctOptions correctAnswer correctFb @ incorrectOptions row incorrectFb
               in if type = ''true_false'' then
                    (case scanTrueFalse opts (False, False) of
                       Inl e \<Rightarrow> Inl e
                     | Inr (hasTrueOption, hasFalseOption) \<Rightarrow>
                         Inr (shuffled
                                (opts
                                 @ (if \<not> hasTrueOption then [missingOption ''TRUE'' incorrectFb] else [])
                                 @ (if \<not> hasFalseOption then [missingOption ''FALSE'' incorrectFb] else []))
                                g))
                  else Inr (shuffled opts g))
            else Inr ([], g))
      else Inr ([], g))"

definition imageOfRow :: "jsval list \<Rightarrow> imageData option" where
  "imageOfRow row =
     (if truthy (cellAt row 14)
      then Some \<lparr>url = cellAt row 14,
                 width = orElse (cellAt row 15) (Str ''auto''),
                 height = orElse (cellAt row 16) (Str ''auto'')\<rparr>
      else None)"

text \<open>
  The body of the row loop for row \<open>i\<close>, up to \<^verbatim>\<open>overlays.push(overlay)\<close>. \<open>Inr (None, g)\<close>
  is a row that is passed over: another video's row, or one that lacks a timestamp, a
  title or a content. \<open>Inl\<close> is an exception, which ends the whole call.
\<close>

definition parseRow :: "jsval \<Rightarrow> nat \<Rightarrow> jsval list \<Rightarrow> rng \<Rightarrow> jsError + (overlay option \<times> rng)" where
  "parseRow videoTitle i row g =
     (if truthy (cellAt row 0) \<and> cellAt row 0 = videoTitle then
        (case typeOfCell (cellAt row 4) of
           Inl e \<Rightarrow> Inl e
         | Inr type \<Rightarrow>
             if parseInt (cellAt row 1) = None \<or> parseInt (cellAt row 1) = Some 0
                \<or> \<not> truthy (cellAt row 2) \<or> \<not> truthy (cellAt row 3)
             then Inr (None, g)
             else
               (case parseNextAction (orElse (cellAt row 5) (Str ''continue'')) of
                  Inl e \<Rightarrow> Inl e
                | Inr nextActionData \<Rightarrow>
                    (case quizOptions type row (orElse (cellAt row 12) (Str []))
                            (orElse (cellAt row 13) (Str [])) g of
                       Inl e \<Rightarrow> Inl e
                     | Inr (opts, g') \<Rightarrow>
                         Inr (Some \<lparr>id_ov = ''overlay-'' @ showNat i,
                                    timestamp = the (parseInt (cellAt row 1)),
                                    title = cellAt row 2,
                                    content = cellAt row 3,
                                    type_ov = type,
                                    nextAction = action nextActionData,
                                    actionParam = param nextActionData,
                                    options = opts,
                                    explanation = orElse (cellAt row 11) (Str []),
                                    correctFeedback = orElse (cellAt row 12) (Str []),
                                    incorrectFeedback = orElse (cellAt row 13) (Str []),
                                    groupName = orElse (cellAt row 10) (Str []),
                                    image_ov = imageOfRow row\<rparr>, g'))))
      else Inr (None, g))"

section \<open>The graph builder: getOverlaysForVideo\<close>

text \<open>
  \<^verbatim>\<open>groups\<close> is a plain object used as a dictionary. A group name that is a property of
  \<^verbatim>\<open>Object.prototype\<close> is found there by \<^verbatim>\<open>groups[name]\<close>, so no array is created
  for it and \<^verbatim>\<open>push\<close> is called on something that is not an array.
\<close>

definition objectPrototypeKeys :: "string list" where
  "objectPrototypeKeys =
     [''constructor'', ''__defineGetter__'', ''__defineSetter__'', ''hasOwnProperty'',
      ''__lookupGetter__'', ''__lookupSetter__'', ''isPrototypeOf'', ''propertyIsEnumerable'',
      ''toString'', ''valueOf'', ''__proto__'', ''toLocaleString'']"

definition addToGroup :: "(string \<rightharpoonup> string list) \<Rightarrow> overlay \<Rightarrow> jsError + (string \<rightharpoonup> string list)" where
  "addToGroup groups ov =
     (if truthy (groupName ov) then
        (case groups (jsToString (groupName ov)) of
           Some ids \<Rightarrow> Inr (groups(jsToString (groupName ov) \<mapsto> ids @ [id_ov ov]))
         | None \<Rightarrow>
             if jsToString (groupName ov) \<in> set objectPrototypeKeys then Inl TypeError
             else Inr (groups(jsToString (groupName ov) \<mapsto> [id_ov ov])))
      else Inr groups)"

text \<open>The row loop, from row \<open>i\<close> on; \<open>overlays\<close> and \<open>groups\<close> are what it has built so far.\<close>

fun scanRows :: "jsval \<Rightarrow> nat \<Rightarrow> sheet \<Rightarrow> overlay list \<Rightarrow> (string \<rightharpoonup> string list) \<Rightarrow> rng
    \<Rightarrow> jsError + (overlay list \<times> (string \<rightharpoonup> string list) \<times> rng)" where
  "scanRows videoTitle i [] ovs groups g = Inr (ovs, groups, g)"
| "scanRows videoTitle i (row # rows) ovs groups g =
     (case parseRow videoTitle i row g of
        Inl e \<Rightarrow> Inl e
      | Inr (None, g') \<Rightarrow> scanRows videoTitle (Suc i) rows ovs groups g'
      | Inr (Some ov, g') \<Rightarrow>
          (case addToGroup groups ov of
             Inl e \<Rightarrow> Inl e
           | Inr groups' \<Rightarrow> scanRows videoTitle (Suc i) rows (ovs @ [ov]) groups' g'))"

text \<open>
  \<^verbatim>\<open>overlays.sort((a, b) => a.timestamp - b.timestamp)\<close>: the library sort, which is
  stable; the comparator orders by timestamp.
\<close>

definition sortByTimestamp :: "overlay list \<Rightarrow> overlay list" where
  "sortByTimestamp ovs = sort_key timestamp ovs"

text \<open>The inner loop \<^verbatim>\<open>for (j = i + 1; j < overlays.length; j++)\<close>, from \<open>j\<close> on.\<close>

function nextQuestionFrom :: "overlay list \<Rightarrow> nat \<Rightarrow> overlay option" where
  "nextQuestionFrom ovs j =
     (if j < length ovs then
        (if isQuestionType (type_ov (ovs ! j)) then Some (ovs ! j)
         else nextQuestionFrom ovs (Suc j))
      else None)"
  by pat_completeness auto
termination
  by (relation "measure (\<lambda>(ovs, j). length ovs - j)") auto

declare nextQuestionFrom.simps [simp del]

text \<open>The outer loop, from \<open>i\<close> on; it writes \<^verbatim>\<open>actionParam\<close> of the overlay at \<open>i\<close>.\<close>

function linkNextQuestions :: "overlay list \<Rightarrow> nat \<Rightarrow> overlay list" where
  "linkNextQuestions ovs i =
     (if i < length ovs then
        (if nextAction (ovs ! i) = NEXT_QUESTION then
           (case nextQuestionFrom ovs (i + 1) of
              Some nextQuestion \<Rightarrow>
                linkNextQuestions (ovs[i := (ovs ! i)\<lparr>actionParam := Num (timestamp nextQuestion)\<rparr>]) (Suc i)
            | None \<Rightarrow> linkNextQuestions ovs (Suc i))
         else linkNextQuestions ovs (Suc i))
      else ovs)"
  by pat_completeness auto
termination
  by (relation "measure (\<lambda>(ovs, i). length ovs - i)") auto

declare linkNextQuestions.simps [simp del]

datatype overlaysError = SheetNotFound | Thrown jsError

record overlaysResult =
  overlays :: "overlay list"
  groups :: "string \<rightharpoonup> string list"

text \<open>
  \<open>overlaysSheet\<close> is the Overlays sheet (\<open>None\<close> when the spreadsheet has none), row 0 its
  header. An exception is caught and reported as an error object.
\<close>

definition getOverlaysForVideo :: "sheet option \<Rightarrow> jsval \<Rightarrow> rng \<Rightarrow> overlaysError + overlaysResult" where
  "getOverlaysForVideo overlaysSheet videoTitle g =
     (case overlaysSheet of
        None \<Rightarrow> Inl SheetNotFound
      | Some overlaysData \<Rightarrow>
          (case scanRows videoTitle 1 (drop 1 overlaysData) [] Map.empty g of
             Inl e \<Rightarrow> Inl (Thrown e)
           | Inr (ovs, grp, g') \<Rightarrow>
               Inr \<lparr>overlays = linkNextQuestions (sortByTimestamp ovs) 0, groups = grp\<rparr>))"

section \<open>Reference descriptions for the graph builder\<close>

text \<open>
  What the second pass is meant to leave at position \<open>i\<close>, said with the library's
  \<open>find\<close>: an overlay whose action is \<^verbatim>\<open>next_question\<close> gets the timestamp of the first
  question-type overlay after position \<open>i\<close>, if there is one.
\<close>

definition linkedAt :: "overlay list \<Rightarrow> nat \<Rightarrow> overlay" where
  "linkedAt ovs i =
     (if nextAction (ovs ! i) = ''next_question'' then
        (case find (\<lambda>q. isQuestionType (type_ov q)) (drop (Suc i) ovs) of
           Some q \<Rightarrow> (ovs ! i)\<lparr>actionParam := Num (timestamp q)\<rparr>
         | None \<Rightarrow> ovs ! i)
      else ovs ! i)"

text \<open>The identifiers of the overlays of a list that carry a given group name, in list order.\<close>

definition groupMemberIds :: "string \<Rightarrow> overlay list \<Rightarrow> string list" where
  "groupMemberIds name ovs =
     map id_ov (filter (\<lambda>ov. truthy (groupName ov) \<and> jsToString (groupName ov) = name) ovs)"

definition groupsOf :: "overlay list \<Rightarrow> (string \<rightharpoonup> string list)" where
  "groupsOf ovs name = (if groupMemberIds name ovs = [] then None else Some (groupMemberIds name ovs))"

section \<open>The analytics aggregator: getStudentReport\<close>

text \<open>
  Numbers computed by the report are exact rationals here, not doubles. A division is
  kept apart from its guard: \<^verbatim>\<open>0 / 0\<close> is \<open>NaN\<close> and \<^verbatim>\<open>n / 0\<close> is \<open>Infinity\<close>. The
  time-to-answer figures (\<^verbatim>\<open>parseFloat\<close> of a cell, their sum and their mean) are left
  out of the report.
\<close>

datatype jsnum = Fin rat | Infinity | NaN

definition jsDivide :: "nat \<Rightarrow> nat \<Rightarrow> jsnum" where
  "jsDivide a b = (if b = 0 then (if a = 0 then NaN else Infinity) else Fin (of_nat a / of_nat b))"

fun jsTimes :: "jsnum \<Rightarrow> rat \<Rightarrow> jsnum" where
  "jsTimes (Fin x) k = Fin (x * k)"
| "jsTimes Infinity k = Infinity"
| "jsTimes NaN k = NaN"

text \<open>
  \<^verbatim>\<open>x.toFixed(1)\<close> for \<open>x \<ge> 0\<close>: the nearest number of tenths, the larger one on a tie.
\<close>

definition tenths :: "rat \<Rightarrow> nat" where
  "tenths x = nat \<lfloor>x * 10 + 1 / 2\<rfloor>"

fun toFixed1 :: "jsnum \<Rightarrow> string" where
  "toFixed1 (Fin x) = showNat (tenths x div 10) @ ''.'' @ showNat (tenths x mod 10)"
| "toFixed1 Infinity = ''Infinity''"
| "toFixed1 NaN = ''NaN''"

text \<open>\<^verbatim>\<open>accuracy >= k\<close>, where \<open>accuracy\<close> is the string \<^verbatim>\<open>x.toFixed(1)\<close>, read back as a number.\<close>

fun fixedAtLeast :: "jsnum \<Rightarrow> nat \<Rightarrow> bool" where
  "fixedAtLeast (Fin x) k = (10 * k \<le> tenths x)"
| "fixedAtLeast Infinity k = True"
| "fixedAtLeast NaN k = False"

record quizDetail =
  overlayId :: jsval
  quizType :: jsval
  wasCorrect :: bool
  selectedOption :: jsval

record quizPerformanceData =
  totalQuestions :: nat
  correctAnswers :: nat
  incorrectAnswers :: nat
  accuracyPercentage :: jsnum
  quizDetails :: "quizDetail list"

record viewingStatisticsData =
  startTime :: "int option"
  endTime :: "int option"
  totalTimeSpent :: jsnum
  completionPercentage :: nat
  pauseCount :: nat

record summaryData =
  title_sum :: string
  message :: string
  grade :: string
  feedback_sum :: string

record report =
  videoTitle_rep :: jsval
  userId_rep :: jsval
  sessionId_rep :: jsval
  quizPerformance :: quizPerformanceData
  viewingStatistics :: viewingStatisticsData
  notesCount :: nat
  summary :: summaryData

definition createDefaultReportSummary :: summaryData where
  "createDefaultReportSummary =
     \<lparr>title_sum = ''Activity Completed'',
      message = ''You have completed this video activity.'',
      grade = ''N/A'',
      feedback_sum = ''No quiz data available for this session.''\<rparr>"

definition generateReportSummary :: "report \<Rightarrow> summaryData" where
  "generateReportSummary rep =
     (let qp = quizPerformance rep;
          summary0 =
            \<lparr>title_sum = ''Activity Completed'',
             message = ''You have completed '' @ [CHR 0x22] @ jsToString (videoTitle_rep rep) @ [CHR 0x22] @ ''.'',
             grade = ''N/A'',
             feedback_sum = []\<rparr>;
          summary1 =
            (if totalQuestions qp > 0 then
               summary0
                 \<lparr>grade := toFixed1 (accuracyPercentage qp) @ ''%'',
                  feedback_sum :=
                    (if fixedAtLeast (accuracyPercentage qp) 90 then
                       ''Excellent work! You demonstrated a strong understanding of the material.''
                     else if fixedAtLeast (accuracyPercentage qp) 75 then
                       ''Good job! You have a solid grasp of most concepts.''
                     else if fixedAtLeast (accuracyPercentage qp) 60 then
                       ''You're on the right track, but may want to review the material again to strengthen your understanding.''
                     else
                       ''It looks like you might need to revisit this content. Consider rewatching the video and paying close attention to the key points.''),
                  message := message summary0 @ '' You answered '' @ showNat (correctAnswers qp)
                               @ '' out of '' @ showNat (totalQuestions qp) @ '' questions correctly.''\<rparr>
             else summary0\<lparr>feedback_sum := ''No quiz data available for this session.''\<rparr>)
      in if notesCount rep > 0 then
           summary1\<lparr>message := message summary1 @ '' You took '' @ showNat (notesCount rep) @ '' note''
                                    @ (if notesCount rep \<noteq> 1 then ''s'' else []) @ '' during the video.''\<rparr>
         else summary1)"

text \<open>The loop over the Quiz Analytics rows, from row 1 on.\<close>

fun quizLoop :: "sheet \<Rightarrow> jsval \<Rightarrow> jsval \<Rightarrow> quizPerformanceData \<Rightarrow> quizPerformanceData" where
  "quizLoop [] sessionId videoTitle qp = qp"
| "quizLoop (row # rows) sessionId videoTitle qp =
     (if cellAt row 8 = sessionId \<and> cellAt row 2 = videoTitle then
        (let correct = (cellAt row 5 = Bool True \<or> cellAt row 5 = Str ''TRUE'')
         in quizLoop rows sessionId videoTitle
              (qp\<lparr>totalQuestions := totalQuestions qp + 1,
                  correctAnswers := (if correct then correctAnswers qp + 1 else correctAnswers qp),
                  incorrectAnswers := (if correct then incorrectAnswers qp else incorrectAnswers qp + 1),
                  quizDetails := quizDetails qp @
                    [\<lparr>overlayId = cellAt row 3, quizType = cellAt row 4, wasCorrect = correct,
                      selectedOption = cellAt row 6\<rparr>]\<rparr>))
      else quizLoop rows sessionId videoTitle qp)"

text \<open>
  A row of the User Data sheet: column A holds the Date that \<^verbatim>\<open>recordUserEvent\<close> wrote,
  given by its time value in milliseconds; the other columns are read from the cells.
\<close>

record viewingRow =
  rowTime :: int
  rowCells :: "jsval list"

text \<open>The loop over the User Data rows: earliest start, latest completion, number of pauses.\<close>

fun viewingLoop :: "viewingRow list \<Rightarrow> jsval \<Rightarrow> jsval \<Rightarrow> int option \<times> int option \<times> nat
    \<Rightarrow> int option \<times> int option \<times> nat" where
  "viewingLoop [] sessionId videoTitle st = st"
| "viewingLoop (row # rows) sessionId videoTitle (startEvent, endEvent, pauses) =
     (if cellAt (rowCells row) 1 = sessionId \<and> cellAt (rowCells row) 3 = videoTitle then
        (let eventType = cellAt (rowCells row) 4;
             startEvent' =
               (if eventType = Str ''activity_started''
                   \<and> (case startEvent of None \<Rightarrow> True | Some s \<Rightarrow> rowTime row < s)
                then Some (rowTime row) else startEvent);
             endEvent' =
               (if eventType = Str ''video_completed''
                   \<and> (case endEvent of None \<Rightarrow> True | Some e \<Rightarrow> rowTime row > e)
                then Some (rowTime row) else endEvent);
             pauses' = (if eventType = Str ''video_paused'' then pauses + 1 else pauses)
         in viewingLoop rows sessionId videoTitle (startEvent', endEvent', pauses'))
      else viewingLoop rows sessionId videoTitle (startEvent, endEvent, pauses))"

definition viewingStatisticsOf :: "int option \<times> int option \<times> nat \<Rightarrow> viewingStatisticsData" where
  "viewingStatisticsOf st =
     (case st of
        (Some s, Some e, pauses) \<Rightarrow>
          \<lparr>startTime = Some s, endTime = Some e, totalTimeSpent = Fin (of_int (e - s) / 1000),
           completionPercentage = 100, pauseCount = pauses\<rparr>
      | (_, _, pauses) \<Rightarrow>
          \<lparr>startTime = None, endTime = None, totalTimeSpent = Fin 0,
           completionPercentage = 0, pauseCount = pauses\<rparr>)"

fun notesLoop :: "sheet \<Rightarrow> jsval \<Rightarrow> jsval \<Rightarrow> nat \<Rightarrow> nat" where
  "notesLoop [] sessionId videoTitle n = n"
| "notesLoop (row # rows) sessionId videoTitle n =
     notesLoop rows sessionId videoTitle
       (if cellAt row 5 = sessionId \<and> cellAt row 2 = videoTitle then n + 1 else n)"

datatype reportError = NoQuizAnalytics

text \<open>
  The three sheets are arguments (\<open>None\<close>: the sheet does not exist); row 0 of each is its
  header. Without the Quiz Analytics sheet the call returns an error object that carries
  the default summary.
\<close>

definition getStudentReport :: "sheet option \<Rightarrow> viewingRow list option \<Rightarrow> sheet option
    \<Rightarrow> jsval \<Rightarrow> jsval \<Rightarrow> jsval \<Rightarrow> (reportError \<times> summaryData) + report" where
  "getStudentReport analyticsSheet userDataSheet notesSheet videoTitle sessionId userId =
     (case analyticsSheet of
        None \<Rightarrow> Inl (NoQuizAnalytics, createDefaultReportSummary)
      | Some analyticsData \<Rightarrow>
          (let viewingData = (case userDataSheet of None \<Rightarrow> [] | Some rows \<Rightarrow> rows);
               notesData = (case notesSheet of None \<Rightarrow> [] | Some rows \<Rightarrow> rows);
               qp0 = quizLoop (drop 1 analyticsData) sessionId videoTitle
                       \<lparr>totalQuestions = 0, correctAnswers = 0, incorrectAnswers = 0,
                        accuracyPercentage = Fin 0, quizDetails = []\<rparr>;
               qp = (if totalQuestions qp0 > 0
                     then qp0\<lparr>accuracyPercentage :=
                                 jsTimes (jsDivide (correctAnswers qp0) (totalQuestions qp0)) 100\<rparr>
                     else qp0);
               vs = viewingStatisticsOf (viewingLoop (drop 1 viewingData) sessionId videoTitle (None, None, 0));
               rep = \<lparr>videoTitle_rep = videoTitle, userId_rep = userId, sessionId_rep = sessionId,
                      quizPerformance = qp, viewingStatistics = vs,
                      notesCount = notesLoop (drop 1 notesData) sessionId videoTitle 0,
                      summary = createDefaultReportSummary\<rparr>
           in Inr (rep\<lparr>summary := generateReportSummary rep\<rparr>)))"

section \<open>Facts about the helpers\<close>

lemmas NEXT_ACTIONS_defs = CONTINUE_def NEXT_QUESTION_def IF_CORRECT_def IF_INCORRECT_def END_def

lemmas string_eval_defs = trim_def isSpace_def startsWith_def toLowerCase_def toUpperCase_def
  lowerChar_def upperChar_def upperLetters_def lowerLetters_def

lemmas parseInt_eval_defs = parseInt_def isSpace_def isDigit_def digitChars_def digitsValue_def
  digitVal_def

lemma splitStr_nonempty: "splitStr c s \<noteq> []"
  by (induction s) (auto split: list.splits)

lemma splitStr_hd: "hd (splitStr c s) = takeWhile (\<lambda>x. x \<noteq> c) s"
  by (induction s) (auto split: list.splits simp: splitStr_nonempty)

lemma splitStr_tl:
  "tl (splitStr c s) = (if c \<in> set s then splitStr c (drop 1 (dropWhile (\<lambda>x. x \<noteq> c) s)) else [])"
  by (induction s) (auto split: list.splits simp: splitStr_nonempty)

lemma secondPieceTrimmed_colon:
  assumes "CHR '':'' \<in> set s"
  shows "secondPieceTrimmed s = Inr (trim (firstColonSegment s))"
proof -
  obtain p ps where sp: "splitStr (CHR '':'') s = p # ps"
    using splitStr_nonempty by (cases "splitStr (CHR '':'') s") auto
  have "ps = splitStr (CHR '':'') (afterFirstColon s)"
    using splitStr_tl [of "CHR '':''" s] assms sp by (simp add: afterFirstColon_def)
  moreover obtain q qs where "splitStr (CHR '':'') (afterFirstColon s) = q # qs"
    using splitStr_nonempty by (cases "splitStr (CHR '':'') (afterFirstColon s)") auto
  moreover from this have "q = firstColonSegment s"
    using splitStr_hd [of "CHR '':''" "afterFirstColon s"] by (simp add: firstColonSegment_def)
  ultimately show ?thesis
    using sp by (simp add: secondPieceTrimmed_def)
qed

lemma startsWith_mem: "startsWith s p \<Longrightarrow> c \<in> set p \<Longrightarrow> c \<in> set s"
  unfolding startsWith_def by (metis in_set_takeD)

lemma parseNextAction_Str_eq:
  "parseNextAction (Str s) = Inr
     (if s = [] then \<lparr>action = ''continue'', param = Null\<rparr>
      else if s = ''continue'' \<or> s = ''next_question'' \<or> s = ''end'' then \<lparr>action = s, param = Null\<rparr>
      else if startsWith s ''if_correct:'' then
        \<lparr>action = ''if_correct'', param = Str (trim (firstColonSegment s))\<rparr>
      else if startsWith s ''if_incorrect:'' then
        \<lparr>action = ''if_incorrect'', param = Str (trim (firstColonSegment s))\<rparr>
      else \<lparr>action = ''continue'', param = Null\<rparr>)"
proof -
  have c1: "startsWith s ''if_correct:'' \<Longrightarrow> secondPieceTrimmed s = Inr (trim (firstColonSegment s))"
    by (rule secondPieceTrimmed_colon) (erule startsWith_mem, simp)
  have c2: "startsWith s ''if_incorrect:'' \<Longrightarrow> secondPieceTrimmed s = Inr (trim (firstColonSegment s))"
    by (rule secondPieceTrimmed_colon) (erule startsWith_mem, simp)
  show ?thesis
    using c1 c2 by (simp add: parseNextAction_def NEXT_ACTIONS_defs)
qed

text \<open>Where the text after the first colon holds no further colon, the code follows the
  grammar as the specification words it.\<close>

lemma parseNextAction_no_second_colon:
  "CHR '':'' \<notin> set (afterFirstColon s) \<Longrightarrow> parseNextAction (Str s) = Inr (parseNextActionSpec s)"
proof -
  assume "CHR '':'' \<notin> set (afterFirstColon s)"
  then have tw: "takeWhile (\<lambda>c. c \<noteq> CHR '':'') (afterFirstColon s) = afterFirstColon s"
    by (simp add: takeWhile_eq_all_conv) blast
  show ?thesis
    by (simp only: parseNextAction_Str_eq parseNextActionSpec_def firstColonSegment_def tw)
qed

lemma parseNextAction_examples:
  "parseNextAction (Str ''if_correct:42'') = Inr \<lparr>action = ''if_correct'', param = Str ''42''\<rparr>"
  "parseNextAction (Str []) = Inr \<lparr>action = ''continue'', param = Null\<rparr>"
  "parseNextAction (Str ''bogus'') = Inr \<lparr>action = ''continue'', param = Null\<rparr>"
  by (simp_all add: parseNextAction_def NEXT_ACTIONS_defs secondPieceTrimmed_def string_eval_defs)

lemma randomBelow_less: "0 < n \<Longrightarrow> fst (randomBelow n g) < n"
  by (simp add: randomBelow_def)

lemma length_swapAt [simp]: "length (swapAt i j a) = length a"
  by (simp add: swapAt_def)

lemma mset_swapAt: "i < length a \<Longrightarrow> j < length a \<Longrightarrow> mset (swapAt i j a) = mset a"
  unfolding swapAt_def by (rule mset_swap)

lemma shuffleSteps_length: "length (fst (shuffleSteps k a g)) = length a"
  by (induction k arbitrary: a g) (simp_all add: split_beta)

lemma shuffleSteps_mset: "k < length a \<Longrightarrow> mset (fst (shuffleSteps k a g)) = mset a"
proof (induction k arbitrary: a g)
  case 0
  then show ?case by simp
next
  case (Suc k)
  have j: "fst (randomBelow (Suc k + 1) g) < length a"
    using randomBelow_less [of "Suc k + 1" g] Suc.prems by simp
  have "mset (swapAt (Suc k) (fst (randomBelow (Suc k + 1) g)) a) = mset a"
    using Suc.prems j by (simp add: mset_swapAt)
  moreover have "k < length (swapAt (Suc k) (fst (randomBelow (Suc k + 1) g)) a)"
    using Suc.prems by simp
  ultimately show ?case
    using Suc.IH [of "swapAt (Suc k) (fst (randomBelow (Suc k + 1) g)) a" "snd (randomBelow (Suc k + 1) g)"]
    by (simp add: split_beta)
qed

lemma shuffled_mset: "mset (fst (shuffled a g)) = mset a"
proof (cases a)
  case Nil
  then show ?thesis by (simp add: shuffled_def)
next
  case (Cons x xs)
  then show ?thesis by (simp add: shuffled_def shuffleSteps_mset)
qed

lemma shuffled_length: "length (fst (shuffled a g)) = length a"
  by (simp add: shuffled_def shuffleSteps_length)

text \<open>The loop on the heap does to the copy what \<open>shuffleSteps\<close> does to an array value.\<close>

lemma shuffleLoop_steps:
  "newArray < length heap \<Longrightarrow>
   shuffleLoop newArray k heap g =
     (heap[newArray := fst (shuffleSteps k (heap ! newArray) g)], snd (shuffleSteps k (heap ! newArray) g))"
  by (induction k arbitrary: heap g) (simp_all add: split_beta)

lemma shuffleArray_shuffled:
  "shuffleArray heap array g =
     (length heap, heap @ [fst (shuffled (heap ! array) g)], snd (shuffled (heap ! array) g))"
  by (simp add: shuffleArray_def shuffleLoop_steps shuffled_def)

subsection \<open>The row parser\<close>

lemma orElse_empty_default [simp]: "orElse (orElse c (Str [])) d = orElse c d"
  by (cases c) (auto simp: orElse_def)

lemma typeOfCell_cases:
  "typeOfCell c = Inr t \<Longrightarrow> t = (case c of Str s \<Rightarrow> if s = [] then ''info'' else toLowerCase s | _ \<Rightarrow> ''info'')"
  by (cases c) (auto simp: typeOfCell_def split: if_splits)

text \<open>What an accepted row looks like: every field of the overlay in terms of the row.\<close>

lemma parseRow_SomeD:
  assumes "parseRow videoTitle i row g = Inr (Some ov, g')"
  shows "typeOfCell (cellAt row 4) = Inr (type_ov ov)"
    and "quizOptions (type_ov ov) row (orElse (cellAt row 12) (Str [])) (orElse (cellAt row 13) (Str [])) g
           = Inr (options ov, g')"
    and "parseInt (cellAt row 1) = Some (timestamp ov)"
    and "timestamp ov \<noteq> 0"
    and "cellAt row 0 = videoTitle"
    and "id_ov ov = ''overlay-'' @ showNat i"
    and "groupName ov = orElse (cellAt row 10) (Str [])"
    and "\<exists>d. parseNextAction (orElse (cellAt row 5) (Str ''continue'')) = Inr d
           \<and> nextAction ov = action d \<and> actionParam ov = param d"
  using assms
  by (auto simp: parseRow_def split: if_splits sum.splits prod.splits option.splits)

lemmas row_eval_defs = parseRow_def cellAt_def typeOfCell_def string_eval_defs parseInt_eval_defs
  showInt_def showNat.simps orElse_def parseNextAction_def NEXT_ACTIONS_defs secondPieceTrimmed_def
  quizOptions_def imageOfRow_def correctOptions_def incorrectOptions_def missingOption_def
  shuffled_def randomBelow_def swapAt_def addToGroup_def objectPrototypeKeys_def

lemmas graph_eval_defs = getOverlaysForVideo_def sortByTimestamp_def linkNextQuestions.simps
  nextQuestionFrom.simps isQuestionType_def

subsection \<open>The second pass\<close>

lemma nextQuestionFrom_find:
  "nextQuestionFrom ovs j = find (\<lambda>q. isQuestionType (type_ov q)) (drop j ovs)"
proof (induction ovs j rule: nextQuestionFrom.induct)
  case (1 ovs j)
  show ?case
  proof (cases "j < length ovs")
    case True
    then have d: "drop j ovs = ovs ! j # drop (Suc j) ovs"
      by (simp add: Cons_nth_drop_Suc)
    show ?thesis
      using True 1 by (subst nextQuestionFrom.simps) (simp add: d)
  next
    case False
    then show ?thesis
      by (subst nextQuestionFrom.simps) simp
  qed
qed

lemma linkedAt_update:
  assumes "i < k" "k < length ovs"
  shows "linkedAt (ovs[i := (ovs ! i)\<lparr>actionParam := p\<rparr>]) k = linkedAt ovs k"
proof -
  have a: "drop (Suc k) (ovs[i := (ovs ! i)\<lparr>actionParam := p\<rparr>]) = drop (Suc k) ovs"
    using assms by simp
  have b: "ovs[i := (ovs ! i)\<lparr>actionParam := p\<rparr>] ! k = ovs ! k"
    using assms by simp
  show ?thesis
    unfolding linkedAt_def a b ..
qed

lemma linkNextQuestions_length [simp]: "length (linkNextQuestions ovs i) = length ovs"
proof (induction ovs i rule: linkNextQuestions.induct)
  case (1 ovs i)
  then show ?case
    by (subst linkNextQuestions.simps) (simp split: option.splits)
qed

lemma linkNextQuestions_nth:
  "k < length ovs \<Longrightarrow>
   linkNextQuestions ovs i ! k = (if i \<le> k then linkedAt ovs k else ovs ! k)"
proof (induction ovs i arbitrary: k rule: linkNextQuestions.induct)
  case (1 ovs i)
  show ?case
  proof (cases "i < length ovs")
    case False
    then show ?thesis
      using "1.prems" by (subst linkNextQuestions.simps) simp
  next
    case inb: True
    show ?thesis
    proof (cases "nextAction (ovs ! i) = NEXT_QUESTION")
      case nq: False
      then have step: "linkNextQuestions ovs i = linkNextQuestions ovs (Suc i)"
        using inb by (subst linkNextQuestions.simps) simp
      have here: "linkedAt ovs i = ovs ! i"
        using nq by (simp add: linkedAt_def NEXT_QUESTION_def)
      show ?thesis
        using "1.IH"(3) [OF inb nq "1.prems"] here
        by (cases "k = i") (auto simp: step)
    next
      case nq: True
      show ?thesis
      proof (cases "nextQuestionFrom ovs (i + 1)")
        case None
        then have step: "linkNextQuestions ovs i = linkNextQuestions ovs (Suc i)"
          using inb nq by (subst linkNextQuestions.simps) simp
        have here: "linkedAt ovs i = ovs ! i"
          using None by (simp add: linkedAt_def nextQuestionFrom_find)
        show ?thesis
          using "1.IH"(1) [OF inb nq None "1.prems"] here
          by (cases "k = i") (auto simp: step)
      next
        case (Some q)
        let ?ovs' = "ovs[i := (ovs ! i)\<lparr>actionParam := Num (timestamp q)\<rparr>]"
        have step: "linkNextQuestions ovs i = linkNextQuestions ?ovs' (Suc i)"
          using inb nq Some by (subst linkNextQuestions.simps) simp
        have here: "linkedAt ovs i = (ovs ! i)\<lparr>actionParam := Num (timestamp q)\<rparr>"
          using nq Some by (simp add: linkedAt_def nextQuestionFrom_find NEXT_QUESTION_def)
        have k': "k < length ?ovs'"
          using "1.prems" by simp
        have ih: "linkNextQuestions ?ovs' (Suc i) ! k = (if Suc i \<le> k then linkedAt ?ovs' k else ?ovs' ! k)"
          by (rule "1.IH"(2) [OF inb nq Some k'])
        show ?thesis
        proof (cases "i < k")
          case True
          then show ?thesis
            using ih linkedAt_update [OF True "1.prems"] by (simp add: step)
        next
          case False
          then show ?thesis
            using ih here inb by (cases "k = i") (auto simp: step)
        qed
      qed
    qed
  qed
qed

lemma linkNextQuestions_0_nth:
  "k < length ovs \<Longrightarrow> linkNextQuestions ovs 0 ! k = linkedAt ovs k"
  by (simp add: linkNextQuestions_nth)

text \<open>When the row scan raises no exception, the call returns the sorted and linked list
  and the groups of the scan.\<close>

lemma getOverlaysForVideo_scan:
  "scanRows videoTitle 1 (drop 1 overlaysData) [] Map.empty g = Inr (ovs, grp, g') \<Longrightarrow>
   getOverlaysForVideo (Some overlaysData) videoTitle g =
     Inr \<lparr>overlays = linkNextQuestions (sortByTimestamp ovs) 0, groups = grp\<rparr>"
  by (simp add: getOverlaysForVideo_def)

lemma linkedAt_fields:
  "timestamp (linkedAt ovs k) = timestamp (ovs ! k)"
  "id_ov (linkedAt ovs k) = id_ov (ovs ! k)"
  by (simp_all add: linkedAt_def split: option.splits)

lemma linkNextQuestions_keys:
  "map (\<lambda>ov. (timestamp ov, id_ov ov)) (linkNextQuestions ovs 0) = map (\<lambda>ov. (timestamp ov, id_ov ov)) ovs"
  by (rule nth_equalityI) (simp_all add: linkNextQuestions_nth linkedAt_fields)

lemma map_timestamp_keys:
  "map timestamp xs = map fst (map (\<lambda>ov. (timestamp ov, id_ov ov)) xs)"
  by simp

lemma map_id_keys:
  "map id_ov xs = map snd (map (\<lambda>ov. (timestamp ov, id_ov ov)) xs)"
  by simp

lemma filter_ids_keys:
  "map id_ov (filter (\<lambda>ov. timestamp ov = t) xs) =
     map snd (filter (\<lambda>p. fst p = t) (map (\<lambda>ov. (timestamp ov, id_ov ov)) xs))"
  by (induction xs) simp_all

lemma linkNextQuestions_timestamps: "map timestamp (linkNextQuestions ovs 0) = map timestamp ovs"
  unfolding map_timestamp_keys [of "linkNextQuestions ovs 0"] linkNextQuestions_keys by simp

lemma linkNextQuestions_ids: "map id_ov (linkNextQuestions ovs 0) = map id_ov ovs"
  unfolding map_id_keys [of "linkNextQuestions ovs 0"] linkNextQuestions_keys by simp

lemma linkNextQuestions_filter_ids:
  "map id_ov (filter (\<lambda>ov. timestamp ov = t) (linkNextQuestions ovs 0))
     = map id_ov (filter (\<lambda>ov. timestamp ov = t) ovs)"
  unfolding filter_ids_keys [of t "linkNextQuestions ovs 0"] linkNextQuestions_keys
  by (simp add: filter_ids_keys)

subsection \<open>The row scan\<close>

lemma groupsOf_Nil: "groupsOf [] = Map.empty"
  by (rule ext) (simp add: groupsOf_def groupMemberIds_def)

lemma addToGroup_groupsOf:
  assumes "addToGroup (groupsOf ovs) ov = Inr grp'"
  shows "grp' = groupsOf (ovs @ [ov])"
proof (cases "truthy (groupName ov)")
  case False
  then show ?thesis
    using assms by (auto simp: addToGroup_def groupsOf_def groupMemberIds_def)
next
  case True
  show ?thesis
  proof (rule ext)
    fix name
    show "grp' name = groupsOf (ovs @ [ov]) name"
      using assms True
      by (cases "groupMemberIds (jsToString (groupName ov)) ovs = []")
         (auto simp: addToGroup_def groupsOf_def groupMemberIds_def split: if_splits)
  qed
qed

lemma scanRows_groupsOf:
  "scanRows videoTitle i rows ovs0 (groupsOf ovs0) g = Inr (ovs, grp, g') \<Longrightarrow> grp = groupsOf ovs"
proof (induction rows arbitrary: i ovs0 g)
  case Nil
  then show ?case by auto
next
  case (Cons row rows)
  show ?case
  proof (cases "parseRow videoTitle i row g")
    case (Inl e)
    then show ?thesis using Cons.prems by simp
  next
    case (Inr r)
    obtain ovo g1 where r: "r = (ovo, g1)" by (cases r)
    show ?thesis
    proof (cases ovo)
      case None
      then show ?thesis
        using Cons.prems Inr r Cons.IH [of "Suc i" ovs0 g1] by simp
    next
      case (Some ov)
      show ?thesis
      proof (cases "addToGroup (groupsOf ovs0) ov")
        case (Inl e)
        then show ?thesis using Cons.prems \<open>parseRow videoTitle i row g = Inr r\<close> r Some by simp
      next
        case inr: (Inr grp1)
        then have "grp1 = groupsOf (ovs0 @ [ov])"
          by (rule addToGroup_groupsOf)
        then show ?thesis
          using Cons.prems Inr r Some inr Cons.IH [of "Suc i" "ovs0 @ [ov]" g1] by simp
      qed
    qed
  qed
qed

text \<open>The overlays come out of the row scan in row order: their identifiers carry
  strictly increasing row numbers.\<close>

lemma scanRows_ids:
  "scanRows videoTitle i rows ovs0 grp0 g = Inr (ovs, grp, g') \<Longrightarrow>
   \<exists>js. ovs = ovs0 @ drop (length ovs0) ovs
      \<and> map id_ov (drop (length ovs0) ovs) = map (\<lambda>j. ''overlay-'' @ showNat j) js
      \<and> sorted_wrt (<) js \<and> (\<forall>j \<in> set js. i \<le> j)"
proof (induction rows arbitrary: i ovs0 grp0 g)
  case Nil
  then show ?case by auto
next
  case (Cons row rows)
  show ?case
  proof (cases "parseRow videoTitle i row g")
    case (Inl e)
    then show ?thesis using Cons.prems by simp
  next
    case (Inr r)
    obtain ovo g1 where r: "r = (ovo, g1)" by (cases r)
    show ?thesis
    proof (cases ovo)
      case None
      then have "scanRows videoTitle (Suc i) rows ovs0 grp0 g1 = Inr (ovs, grp, g')"
        using Cons.prems Inr r by simp
      from Cons.IH [OF this] obtain js where
        "ovs = ovs0 @ drop (length ovs0) ovs"
        "map id_ov (drop (length ovs0) ovs) = map (\<lambda>j. ''overlay-'' @ showNat j) js"
        "sorted_wrt (<) js" "\<forall>j \<in> set js. Suc i \<le> j"
        by blast
      then show ?thesis
        by (intro exI [of _ js]) auto
    next
      case (Some ov)
      have idov: "id_ov ov = ''overlay-'' @ showNat i"
        using Inr r Some by (auto dest: parseRow_SomeD(6))
      obtain grp1 where sc: "scanRows videoTitle (Suc i) rows (ovs0 @ [ov]) grp1 g1 = Inr (ovs, grp, g')"
        using Cons.prems Inr r Some by (auto split: sum.splits)
      from Cons.IH [OF sc] obtain js where js:
        "ovs = (ovs0 @ [ov]) @ drop (length (ovs0 @ [ov])) ovs"
        "map id_ov (drop (length (ovs0 @ [ov])) ovs) = map (\<lambda>j. ''overlay-'' @ showNat j) js"
        "sorted_wrt (<) js" "\<forall>j \<in> set js. Suc i \<le> j"
        by blast
      have d: "drop (length ovs0) ovs = ov # drop (Suc (length ovs0)) ovs"
        using js(1) by (metis append.assoc append_Cons append_Nil append_eq_conv_conj length_append_singleton)
      show ?thesis
        using js d by (intro exI [of _ "i # js"]) (auto simp: idov)
    qed
  qed
qed

subsection \<open>The student report\<close>

lemma quizLoop_no_match:
  "filter (\<lambda>row. cellAt row 8 = sessionId \<and> cellAt row 2 = videoTitle) rows = [] \<Longrightarrow>
   quizLoop rows sessionId videoTitle qp = qp"
  by (induction rows) (auto split: if_splits)

lemma generateReportSummary_no_quiz:
  "totalQuestions (quizPerformance rep) = 0 \<Longrightarrow>
   feedback_sum (generateReportSummary rep) = ''No quiz data available for this session.''"
  by (simp add: generateReportSummary_def Let_def)

section \<open>Settings round trip\<close>

text \<open>
  Claim C1. Writing a settings object whose values are booleans with \<open>updateAppSettings\<close>
  and reading it back with \<open>getAppSettings\<close> should return each setting as the boolean it
  was. The writer stores \<^verbatim>\<open>true.toString()\<close>, the string \<^verbatim>\<open>"true"\<close>; the reader turns
  only \<^verbatim>\<open>"TRUE"\<close> and \<^verbatim>\<open>"FALSE"\<close> into booleans. So \<^verbatim>\<open>{Foo: true}\<close> comes back as
  \<^verbatim>\<open>{Foo: "true"}\<close>, a string.
\<close>

theorem updateAppSettings_roundtrip_Foo:
  "getAppSettings (snd (updateAppSettings None [(''Foo'', Bool True)])) = [''Foo'' \<mapsto> Str ''true'']
   \<and> getAppSettings (snd (updateAppSettings None [(''Foo'', Bool True)])) ''Foo'' \<noteq> Some (Bool True)"
  by (simp add: updateAppSettings_def getAppSettings_def toStringMethod_def setProp_def cellAt_def)

text \<open>A row holding the upper-case literal, as \<^verbatim>\<open>setupSettingsSheet\<close> writes it, is read as
  a boolean.\<close>

lemma getAppSettings_reads_TRUE:
  "getAppSettings (Some [hdr, [Str ''Foo'', Str ''TRUE'', d]]) = [''Foo'' \<mapsto> Bool True]"
  by (simp add: getAppSettings_def setProp_def cellAt_def)

section \<open>The action grammar\<close>

text \<open>
  Claim C2, as stated: for every string, \<open>parseNextAction\<close> follows the grammar in which the
  parameter of \<^verbatim>\<open>if_correct:\<close> and \<^verbatim>\<open>if_incorrect:\<close> is everything after the first colon,
  trimmed. It fails where the parameter holds a colon: the code takes the second piece
  of \<^verbatim>\<open>split(':')\<close>, which ends at the next colon.
\<close>

theorem parseNextAction_param_counterexample:
  "parseNextAction (Str ''if_correct:a:b'') \<noteq> Inr (parseNextActionSpec ''if_correct:a:b'')"
  by (simp add: parseNextAction_def NEXT_ACTIONS_defs secondPieceTrimmed_def
      parseNextActionSpec_def afterFirstColon_def string_eval_defs)

text \<open>
  Claim C2, amended: \<open>parseNextAction\<close> returns: for an absent value (\<^verbatim>\<open>undefined\<close>,
  \<^verbatim>\<open>null\<close>) and for the empty string, \<^verbatim>\<open>continue\<close> with a null parameter; for exactly \<^verbatim>\<open>continue\<close>, \<^verbatim>\<open>next_question\<close>
  or \<^verbatim>\<open>end\<close>, that action with a null parameter; for a string that starts with
  \<^verbatim>\<open>if_correct:\<close> or \<^verbatim>\<open>if_incorrect:\<close>, the matched action with, as parameter, the
  text between the first colon and the next colon (or the end of the string), trimmed;
  for every other string, \<^verbatim>\<open>continue\<close> with a null parameter. It never throws on a string.
\<close>

theorem parseNextAction_grammar:
  "parseNextAction Undefined = Inr \<lparr>action = ''continue'', param = Null\<rparr>
   \<and> parseNextAction Null = Inr \<lparr>action = ''continue'', param = Null\<rparr>
   \<and> parseNextAction (Str s) = Inr
     (if s = [] then \<lparr>action = ''continue'', param = Null\<rparr>
      else if s = ''continue'' \<or> s = ''next_question'' \<or> s = ''end'' then \<lparr>action = s, param = Null\<rparr>
      else if startsWith s ''if_correct:'' then
        \<lparr>action = ''if_correct'', param = Str (trim (firstColonSegment s))\<rparr>
      else if startsWith s ''if_incorrect:'' then
        \<lparr>action = ''if_incorrect'', param = Str (trim (firstColonSegment s))\<rparr>
      else \<lparr>action = ''continue'', param = Null\<rparr>)"
  using parseNextAction_Str_eq [of s] by (simp add: parseNextAction_def CONTINUE_def)

theorem parseNextAction_grammar_witness:
  "parseNextAction (Str ''if_incorrect: 7 :x'') = Inr \<lparr>action = ''if_incorrect'', param = Str ''7''\<rparr>"
  using parseNextAction_grammar [of "''if_incorrect: 7 :x''"]
  by (simp add: firstColonSegment_def afterFirstColon_def string_eval_defs)

section \<open>The shuffler\<close>

text \<open>
  Claim C9. For every array and every run of the random generator, \<open>shuffleArray\<close>
  returns a new array that is a permutation of its argument (same length, same multiset
  of elements, so every option keeps its text, correctness and feedback), and leaves
  the argument array, and every other array allocated before the call, as it was.
\<close>

theorem shuffleArray_permutes_copy:
  "array < length heap \<Longrightarrow>
   (case shuffleArray heap array g of
      (newArray, heap', g') \<Rightarrow>
        newArray = length heap
        \<and> take (length heap) heap' = heap
        \<and> heap' ! array = heap ! array
        \<and> length heap' = Suc (length heap)
        \<and> mset (heap' ! newArray) = mset (heap ! array)
        \<and> length (heap' ! newArray) = length (heap ! array))"
  by (simp add: shuffleArray_shuffled shuffled_mset shuffled_length nth_append)

theorem shuffleArray_permutes_copy_witness:
  "(0::nat) < length [[''a'', ''b'', ''c'']]
   \<and> shuffleArray [[''a'', ''b'', ''c'']] 0 (\<lambda>k. k) = (1, [[''a'', ''b'', ''c''], [''c'', ''b'', ''a'']], \<lambda>k. Suc (Suc k))
   \<and> mset [''c'', ''b'', ''a''] = mset [''a'', ''b'', ''c'']"
  using shuffleArray_permutes_copy [of 0 "[[''a'', ''b'', ''c'']]" "\<lambda>k. k"]
  by (simp add: shuffleArray_def randomBelow_def swapAt_def numeral_2_eq_2)

section \<open>The row parser\<close>

text \<open>
  Claim C5. A row that is accepted with type exactly \<^verbatim>\<open>true_false\<close>, whose non-empty
  correct-answer field yields one option, TRUE in any letter case, and whose three
  incorrect-answer fields yield none, gives an overlay with exactly two options (as a
  multiset, whatever the generator does): that TRUE option, marked correct, with the
  correct feedback or \<^verbatim>\<open>"Correct!"\<close>, and a FALSE option, marked incorrect, with the
  incorrect feedback or \<^verbatim>\<open>"Incorrect."\<close>.
\<close>

theorem parseRow_true_only:
  assumes acc: "parseRow videoTitle i row g = Inr (Some ov, g')"
    and ty: "type_ov ov = ''true_false''"
    and ca: "truthy (cellAt row 6)"
    and pieces: "map trim (filter (\<lambda>answer. trim answer \<noteq> []) (splitStr (CHR ''|'') (jsToString (cellAt row 6)))) = [t]"
    and up: "toUpperCase t = ''TRUE''"
    and inc: "filter (\<lambda>j. truthy (cellAt row j) \<and> trim (jsToString (cellAt row j)) \<noteq> []) [7, 8, 9] = []"
  shows "mset (options ov) =
           {# \<lparr>text_opt = Str t, isCorrect = True, feedback = orElse (cellAt row 12) (Str ''Correct!'')\<rparr>,
              \<lparr>text_opt = Str ''FALSE'', isCorrect = False, feedback = orElse (cellAt row 13) (Str ''Incorrect.'')\<rparr> #}"
proof -
  let ?cf = "orElse (cellAt row 12) (Str [])"
  let ?icf = "orElse (cellAt row 13) (Str [])"
  let ?true = "\<lparr>text_opt = Str t, isCorrect = True, feedback = orElse (cellAt row 12) (Str ''Correct!'')\<rparr>"
  have co: "correctOptions (cellAt row 6) ?cf = [?true]"
  proof -
    have "correctOptions (cellAt row 6) ?cf =
            map (\<lambda>a. \<lparr>text_opt = Str a, isCorrect = True, feedback = orElse (cellAt row 12) (Str ''Correct!'')\<rparr>)
              (map trim (filter (\<lambda>answer. trim answer \<noteq> []) (splitStr (CHR ''|'') (jsToString (cellAt row 6)))))"
      by (simp add: correctOptions_def comp_def)
    then show ?thesis by (simp add: pieces)
  qed
  have io: "incorrectOptions row ?icf = []"
    unfolding incorrectOptions_def inc by simp
  have sc: "scanTrueFalse [?true] (False, False) = Inr (True, False)"
    by (simp add: up)
  have "quizOptions ''true_false'' row ?cf ?icf g =
          Inr (shuffled [?true, missingOption ''FALSE'' ?icf] g)"
    by (simp add: quizOptions_def startsWith_def ca co io up)
  then have "options ov = fst (shuffled [?true, missingOption ''FALSE'' ?icf] g)"
    using parseRow_SomeD(2) [OF acc] ty by simp
  then show ?thesis
    by (simp add: shuffled_mset missingOption_def)
qed

theorem parseRow_true_only_witness:
  "parseRow (Str ''V'') 3
     [Str ''V'', Num 15, Str ''T'', Str ''C'', Str ''true_false'', Str ''next_question'', Str ''TRUE''] (\<lambda>k. 0) =
     Inr (Some \<lparr>id_ov = ''overlay-3'', timestamp = 15, title = Str ''T'', content = Str ''C'',
                 type_ov = ''true_false'', nextAction = ''next_question'', actionParam = Null,
                 options = [\<lparr>text_opt = Str ''FALSE'', isCorrect = False, feedback = Str ''Incorrect.''\<rparr>,
                            \<lparr>text_opt = Str ''TRUE'', isCorrect = True, feedback = Str ''Correct!''\<rparr>],
                 explanation = Str [], correctFeedback = Str [], incorrectFeedback = Str [],
                 groupName = Str [], image_ov = None\<rparr>, \<lambda>k. 0)
   \<and> mset [\<lparr>text_opt = Str ''FALSE'', isCorrect = False, feedback = Str ''Incorrect.''\<rparr>,
            \<lparr>text_opt = Str ''TRUE'', isCorrect = True, feedback = Str ''Correct!''\<rparr>]
       = {# \<lparr>text_opt = Str ''TRUE'', isCorrect = True, feedback = Str ''Correct!''\<rparr>,
            \<lparr>text_opt = Str ''FALSE'', isCorrect = False, feedback = Str ''Incorrect.''\<rparr> #}"
  (is "parseRow _ _ ?row _ = Inr (Some ?ov, _) \<and> _")
proof -
  have h1: "parseRow (Str ''V'') 3 ?row (\<lambda>k. 0) = Inr (Some ?ov, \<lambda>k. 0)"
    by (simp add: row_eval_defs)
  have h2: "type_ov ?ov = ''true_false''"
    by simp
  have h3: "truthy (cellAt ?row 6)"
    by (simp add: cellAt_def)
  have h4: "map trim (filter (\<lambda>answer. trim answer \<noteq> []) (splitStr (CHR ''|'') (jsToString (cellAt ?row 6)))) = [''TRUE'']"
    by (simp add: cellAt_def string_eval_defs)
  have h5: "toUpperCase ''TRUE'' = ''TRUE''"
    by (simp add: string_eval_defs)
  have h6: "filter (\<lambda>j. truthy (cellAt ?row j) \<and> trim (jsToString (cellAt ?row j)) \<noteq> []) [7, 8, 9] = []"
    by (simp add: cellAt_def)
  have "mset (options ?ov) =
          {# \<lparr>text_opt = Str ''TRUE'', isCorrect = True, feedback = orElse (cellAt ?row 12) (Str ''Correct!'')\<rparr>,
             \<lparr>text_opt = Str ''FALSE'', isCorrect = False, feedback = orElse (cellAt ?row 13) (Str ''Incorrect.'')\<rparr> #}"
    by (rule parseRow_true_only [OF h1 h2 h3 h4 h5 h6])
  then show ?thesis
    using h1 by (simp add: cellAt_def orElse_def)
qed

text \<open>
  Claim C7, as stated: the type of an accepted row is lower-cased, and a type that is none
  of \<^verbatim>\<open>info\<close>, \<^verbatim>\<open>quiz\<close>, \<^verbatim>\<open>true_false\<close>, \<^verbatim>\<open>matching\<close> becomes \<^verbatim>\<open>info\<close>.
  It fails on a row of type \<^verbatim>\<open>Bogus\<close>: the overlay has type \<^verbatim>\<open>bogus\<close>. The parser
  has no list of known types; only an empty or absent field gives \<^verbatim>\<open>info\<close>.
\<close>

theorem parseRow_type_counterexample:
  "parseRow (Str ''V'') 1 [Str ''V'', Num 5, Str ''T'', Str ''C'', Str ''Bogus''] id =
     Inr (Some \<lparr>id_ov = ''overlay-1'', timestamp = 5, title = Str ''T'', content = Str ''C'',
                 type_ov = ''bogus'', nextAction = ''continue'', actionParam = Null, options = [],
                 explanation = Str [], correctFeedback = Str [], incorrectFeedback = Str [],
                 groupName = Str [], image_ov = None\<rparr>, id)"
  by (simp add: row_eval_defs)

text \<open>
  Claim C7, amended. For every accepted row, the type of the overlay is the interaction-type
  field in lower case when that field is a non-empty string, and \<^verbatim>\<open>info\<close> when the
  field is empty or absent. A type that is none of \<^verbatim>\<open>info\<close>, \<^verbatim>\<open>quiz\<close>,
  \<^verbatim>\<open>true_false\<close>, \<^verbatim>\<open>matching\<close> is kept, in lower case.
\<close>

theorem parseRow_type:
  "parseRow videoTitle i row g = Inr (Some ov, g') \<Longrightarrow>
   type_ov ov = (case cellAt row 4 of Str s \<Rightarrow> if s = [] then ''info'' else toLowerCase s | _ \<Rightarrow> ''info'')"
  by (rule typeOfCell_cases) (rule parseRow_SomeD)

theorem parseRow_type_witness:
  "parseRow (Str ''V'') 2 [Str ''V'', Str ''10'', Str ''T'', Str ''C'', Str ''QUIZ''] id =
     Inr (Some \<lparr>id_ov = ''overlay-2'', timestamp = 10, title = Str ''T'', content = Str ''C'',
                 type_ov = ''quiz'', nextAction = ''continue'', actionParam = Null, options = [],
                 explanation = Str [], correctFeedback = Str [], incorrectFeedback = Str [],
                 groupName = Str [], image_ov = None\<rparr>, id)
   \<and> ''quiz'' = (case cellAt [Str ''V'', Str ''10'', Str ''T'', Str ''C'', Str ''QUIZ''] 4 of
                   Str s \<Rightarrow> if s = [] then ''info'' else toLowerCase s | _ \<Rightarrow> ''info'')"
  (is "?p = Inr (Some ?ov, id) \<and> _")
proof -
  have h: "?p = Inr (Some ?ov, id)"
    by (simp add: row_eval_defs)
  show ?thesis
    using h parseRow_type [OF h] by simp
qed

text \<open>
  Claim C10. For every accepted row whose type is exactly \<^verbatim>\<open>matching\<close>, the overlay has no
  options, whatever the answer fields hold; the generator is not used.
\<close>

theorem parseRow_matching_no_options:
  "parseRow videoTitle i row g = Inr (Some ov, g') \<Longrightarrow> type_ov ov = ''matching'' \<Longrightarrow>
   options ov = [] \<and> g' = g"
  using parseRow_SomeD(2) [of videoTitle i row g ov g']
  by (simp add: quizOptions_def startsWith_def)

theorem parseRow_matching_no_options_witness:
  "parseRow (Str ''V'') 3 [Str ''V'', Num 7, Str ''T'', Str ''C'', Str ''Matching'', Str [], Str ''a|b'', Str ''c''] id =
     Inr (Some \<lparr>id_ov = ''overlay-3'', timestamp = 7, title = Str ''T'', content = Str ''C'',
                 type_ov = ''matching'', nextAction = ''continue'', actionParam = Null, options = [],
                 explanation = Str [], correctFeedback = Str [], incorrectFeedback = Str [],
                 groupName = Str [], image_ov = None\<rparr>, id)"
  (is "?p = Inr (Some ?ov, id)")
proof -
  have h: "?p = Inr (Some ?ov, id)"
    by (simp add: row_eval_defs)
  have t: "type_ov ?ov = ''matching''"
    by simp
  show ?thesis
    using h parseRow_matching_no_options [OF h t] by simp
qed

section \<open>The graph builder\<close>

text \<open>
  Claim C3. When the row scan raises no exception, the call returns a list as long as
  the list of parsed overlays, and at every position \<open>i\<close> of the sorted list: an overlay
  whose action is \<^verbatim>\<open>next_question\<close> has its \<^verbatim>\<open>actionParam\<close> overwritten with the
  timestamp of the first overlay after position \<open>i\<close> whose type contains \<^verbatim>\<open>quiz\<close> or
  \<^verbatim>\<open>true_false\<close>; if there is none, and for every other overlay, the overlay is as the
  row parser built it.
\<close>

theorem getOverlaysForVideo_links_next_question:
  assumes "scanRows videoTitle 1 (drop 1 overlaysData) [] Map.empty g = Inr (ovs, grp, g')"
  shows "\<exists>res. getOverlaysForVideo (Some overlaysData) videoTitle g = Inr res
     \<and> length (overlays res) = length ovs
     \<and> (\<forall>i < length ovs.
          overlays res ! i =
            (if nextAction (sortByTimestamp ovs ! i) = ''next_question'' then
               (case find (\<lambda>q. includesStr (type_ov q) ''quiz'' \<or> includesStr (type_ov q) ''true_false'')
                       (drop (Suc i) (sortByTimestamp ovs)) of
                  Some q \<Rightarrow> (sortByTimestamp ovs ! i)\<lparr>actionParam := Num (timestamp q)\<rparr>
                | None \<Rightarrow> sortByTimestamp ovs ! i)
             else sortByTimestamp ovs ! i))"
proof -
  have len: "length (sortByTimestamp ovs) = length ovs"
    by (simp add: sortByTimestamp_def)
  have "\<forall>i < length ovs. linkNextQuestions (sortByTimestamp ovs) 0 ! i = linkedAt (sortByTimestamp ovs) i"
    by (simp add: linkNextQuestions_0_nth len)
  then show ?thesis
    unfolding getOverlaysForVideo_scan [OF assms] linkedAt_def isQuestionType_def
    by (simp add: len)
qed

theorem getOverlaysForVideo_links_next_question_witness:
  "scanRows (Str ''V'') 1
     (drop 1 [[Str ''Video Title''],
              [Str ''V'', Num 20, Str ''T'', Str ''C'', Str ''quiz''],
              [Str ''V'', Num 5, Str ''T'', Str ''C'', Str ''info'', Str ''next_question''],
              [Str ''V'', Num 10, Str ''T'', Str ''C'', Str ''quiz'']]) [] Map.empty id
     = Inr (map (\<lambda>(n, t, ty, na). \<lparr>id_ov = ''overlay-'' @ n, timestamp = t, title = Str ''T'',
                  content = Str ''C'', type_ov = ty, nextAction = na, actionParam = Null, options = [],
                  explanation = Str [], correctFeedback = Str [], incorrectFeedback = Str [],
                  groupName = Str [], image_ov = None\<rparr>)
             [(''1'', 20, ''quiz'', ''continue''), (''2'', 5, ''info'', ''next_question''),
              (''3'', 10, ''quiz'', ''continue'')], Map.empty, id)
   \<and> (\<exists>res. getOverlaysForVideo
          (Some [[Str ''Video Title''],
              [Str ''V'', Num 20, Str ''T'', Str ''C'', Str ''quiz''],
              [Str ''V'', Num 5, Str ''T'', Str ''C'', Str ''info'', Str ''next_question''],
              [Str ''V'', Num 10, Str ''T'', Str ''C'', Str ''quiz'']]) (Str ''V'') id = Inr res
        \<and> length (overlays res) = 3
        \<and> timestamp (overlays res ! 0) = 5
        \<and> nextAction (overlays res ! 0) = ''next_question''
        \<and> actionParam (overlays res ! 0) = Num 10)"
  (is "?scan = Inr (?ovs, Map.empty, id) \<and> (\<exists>res. ?get = Inr res \<and> ?P res)")
proof -
  have h: "?scan = Inr (?ovs, Map.empty, id)"
    by (simp add: row_eval_defs)
  from getOverlaysForVideo_links_next_question [OF h]
  obtain res where r: "?get = Inr res" and len: "length (overlays res) = length ?ovs"
    and link: "\<forall>i < length ?ovs.
          overlays res ! i =
            (if nextAction (sortByTimestamp ?ovs ! i) = ''next_question'' then
               (case find (\<lambda>q. includesStr (type_ov q) ''quiz'' \<or> includesStr (type_ov q) ''true_false'')
                       (drop (Suc i) (sortByTimestamp ?ovs)) of
                  Some q \<Rightarrow> (sortByTimestamp ?ovs ! i)\<lparr>actionParam := Num (timestamp q)\<rparr>
                | None \<Rightarrow> sortByTimestamp ?ovs ! i)
             else sortByTimestamp ?ovs ! i)"
    by (elim exE conjE)
  have "0 < length ?ovs"
    by simp
  from link [rule_format, OF this]
  have "overlays res ! 0 =
            (if nextAction (sortByTimestamp ?ovs ! 0) = ''next_question'' then
               (case find (\<lambda>q. includesStr (type_ov q) ''quiz'' \<or> includesStr (type_ov q) ''true_false'')
                       (drop (Suc 0) (sortByTimestamp ?ovs)) of
                  Some q \<Rightarrow> (sortByTimestamp ?ovs ! 0)\<lparr>actionParam := Num (timestamp q)\<rparr>
                | None \<Rightarrow> sortByTimestamp ?ovs ! 0)
             else sortByTimestamp ?ovs ! 0)" .
  then have "timestamp (overlays res ! 0) = 5 \<and> nextAction (overlays res ! 0) = ''next_question''
      \<and> actionParam (overlays res ! 0) = Num 10"
    by (simp add: sortByTimestamp_def startsWith_def)
  then show ?thesis
    using h r len by (intro conjI exI [of _ res]) simp_all
qed

text \<open>
  Claim C4. When the row scan raises no exception, the list returned is sorted by
  timestamp, ascending; it holds the parsed overlays, and the overlays of any one
  timestamp come in the order the row scan produced them, which is the order of their
  rows: the identifiers of the scanned list carry strictly increasing row numbers.
\<close>

theorem getOverlaysForVideo_sorted_stable:
  assumes "scanRows videoTitle 1 (drop 1 overlaysData) [] Map.empty g = Inr (ovs, grp, g')"
  shows "\<exists>res. getOverlaysForVideo (Some overlaysData) videoTitle g = Inr res
     \<and> sorted (map timestamp (overlays res))
     \<and> mset (map id_ov (overlays res)) = mset (map id_ov ovs)
     \<and> (\<forall>t. map id_ov (filter (\<lambda>ov. timestamp ov = t) (overlays res))
             = map id_ov (filter (\<lambda>ov. timestamp ov = t) ovs))
     \<and> (\<exists>js. map id_ov ovs = map (\<lambda>j. ''overlay-'' @ showNat j) js \<and> sorted_wrt (<) js)"
proof -
  let ?out = "linkNextQuestions (sortByTimestamp ovs) 0"
  have s: "sorted (map timestamp ?out)"
    by (simp add: linkNextQuestions_timestamps sortByTimestamp_def)
  have "mset (map id_ov ?out) = mset (map id_ov (sortByTimestamp ovs))"
    by (simp add: linkNextQuestions_ids)
  then have m: "mset (map id_ov ?out) = mset (map id_ov ovs)"
    by (simp add: sortByTimestamp_def)
  have st: "map id_ov (filter (\<lambda>ov. timestamp ov = t) ?out) = map id_ov (filter (\<lambda>ov. timestamp ov = t) ovs)" for t
    by (simp add: linkNextQuestions_filter_ids sortByTimestamp_def sort_key_stable)
  have ids: "\<exists>js. map id_ov ovs = map (\<lambda>j. ''overlay-'' @ showNat j) js \<and> sorted_wrt (<) js"
    using scanRows_ids [OF assms] by auto
  show ?thesis
    unfolding getOverlaysForVideo_scan [OF assms] using s m st ids by simp
qed

theorem getOverlaysForVideo_sorted_stable_witness:
  "scanRows (Str ''V'') 1
     (drop 1 [[Str ''Video Title''],
              [Str ''V'', Num 30, Str ''T'', Str ''C''],
              [Str ''V'', Num 5, Str ''T'', Str ''C''],
              [Str ''V'', Num 10, Str ''T'', Str ''C''],
              [Str ''V'', Num 20, Str ''T'', Str ''C'']]) [] Map.empty id
     = Inr (map (\<lambda>(n, t). \<lparr>id_ov = ''overlay-'' @ n, timestamp = t, title = Str ''T'', content = Str ''C'',
                  type_ov = ''info'', nextAction = ''continue'', actionParam = Null, options = [],
                  explanation = Str [], correctFeedback = Str [], incorrectFeedback = Str [],
                  groupName = Str [], image_ov = None\<rparr>)
             [(''1'', 30), (''2'', 5), (''3'', 10), (''4'', 20)], Map.empty, id)
   \<and> (\<exists>res. getOverlaysForVideo
          (Some [[Str ''Video Title''],
              [Str ''V'', Num 30, Str ''T'', Str ''C''],
              [Str ''V'', Num 5, Str ''T'', Str ''C''],
              [Str ''V'', Num 10, Str ''T'', Str ''C''],
              [Str ''V'', Num 20, Str ''T'', Str ''C'']]) (Str ''V'') id = Inr res
        \<and> sorted (map timestamp (overlays res))
        \<and> map timestamp (overlays res) = [5, 10, 20, 30])"
  (is "?scan = Inr (?ovs, Map.empty, id) \<and> (\<exists>res. ?get = Inr res \<and> ?S res \<and> ?T res)")
proof -
  have h: "?scan = Inr (?ovs, Map.empty, id)"
    by (simp add: row_eval_defs)
  from getOverlaysForVideo_sorted_stable [OF h]
  obtain res where r: "?get = Inr res" and s: "?S res"
    by (elim exE conjE)
  have "?get = Inr \<lparr>overlays = linkNextQuestions (sortByTimestamp ?ovs) 0, groups = Map.empty\<rparr>"
    using h by (rule getOverlaysForVideo_scan)
  then have "overlays res = linkNextQuestions (sortByTimestamp ?ovs) 0"
    using r by simp
  then have "map timestamp (overlays res) = map timestamp (sortByTimestamp ?ovs)"
    by (simp only: linkNextQuestions_timestamps)
  then have t: "?T res"
    by (simp add: sortByTimestamp_def)
  show ?thesis
    using h r s t by (intro conjI exI [of _ res])
qed

text \<open>
  Claim C6, as stated: each group lists its members in ascending-timestamp order. It
  fails on two rows of group \<^verbatim>\<open>g\<close>, the first at timestamp 30 and the second at 5: the
  group lists \<^verbatim>\<open>overlay-1\<close> (timestamp 30) before \<^verbatim>\<open>overlay-2\<close> (timestamp 5). The
  index is filled during the row scan, before the sort.
\<close>

theorem getOverlaysForVideo_groups_counterexample:
  "getOverlaysForVideo
     (Some [[Str ''Video Title''],
            [Str ''V'', Num 30, Str ''T'', Str ''C'', Str [], Str [], Str [], Str [], Str [], Str [], Str ''g''],
            [Str ''V'', Num 5, Str ''T'', Str ''C'', Str [], Str [], Str [], Str [], Str [], Str [], Str ''g'']])
     (Str ''V'') id
   = Inr \<lparr>overlays =
            [\<lparr>id_ov = ''overlay-2'', timestamp = 5, title = Str ''T'', content = Str ''C'',
               type_ov = ''info'', nextAction = ''continue'', actionParam = Null, options = [],
               explanation = Str [], correctFeedback = Str [], incorrectFeedback = Str [],
               groupName = Str ''g'', image_ov = None\<rparr>,
             \<lparr>id_ov = ''overlay-1'', timestamp = 30, title = Str ''T'', content = Str ''C'',
               type_ov = ''info'', nextAction = ''continue'', actionParam = Null, options = [],
               explanation = Str [], correctFeedback = Str [], incorrectFeedback = Str [],
               groupName = Str ''g'', image_ov = None\<rparr>],
          groups = [''g'' \<mapsto> [''overlay-1'', ''overlay-2'']]\<rparr>"
  by (simp add: row_eval_defs graph_eval_defs)

text \<open>
  Claim C6, amended. When the row scan raises no exception, each group of the index lists
  the identifiers of the overlays that carry its name in source-row order (the order in
  which the row scan accepted them), whatever their timestamps; a name no overlay
  carries has no entry.
\<close>

theorem getOverlaysForVideo_groups_row_order:
  assumes "scanRows videoTitle 1 (drop 1 overlaysData) [] Map.empty g = Inr (ovs, grp, g')"
  shows "\<exists>res. getOverlaysForVideo (Some overlaysData) videoTitle g = Inr res
     \<and> mset (map id_ov (overlays res)) = mset (map id_ov ovs)
     \<and> (\<forall>name. groups res name =
           (if groupMemberIds name ovs = [] then None else Some (groupMemberIds name ovs)))
     \<and> (\<exists>js. map id_ov ovs = map (\<lambda>j. ''overlay-'' @ showNat j) js \<and> sorted_wrt (<) js)"
proof -
  have "scanRows videoTitle 1 (drop 1 overlaysData) [] (groupsOf []) g = Inr (ovs, grp, g')"
    using assms by (simp add: groupsOf_Nil)
  then have grp: "grp = groupsOf ovs"
    by (rule scanRows_groupsOf)
  have "mset (map id_ov (linkNextQuestions (sortByTimestamp ovs) 0)) = mset (map id_ov (sortByTimestamp ovs))"
    by (simp add: linkNextQuestions_ids)
  then have m: "mset (map id_ov (linkNextQuestions (sortByTimestamp ovs) 0)) = mset (map id_ov ovs)"
    by (simp add: sortByTimestamp_def)
  have ids: "\<exists>js. map id_ov ovs = map (\<lambda>j. ''overlay-'' @ showNat j) js \<and> sorted_wrt (<) js"
    using scanRows_ids [OF assms] by auto
  show ?thesis
    unfolding getOverlaysForVideo_scan [OF assms] using grp m ids by (simp add: groupsOf_def)
qed

theorem getOverlaysForVideo_groups_row_order_witness:
  "scanRows (Str ''V'') 1
     (drop 1 [[Str ''Video Title''],
              [Str ''V'', Num 9, Str ''T'', Str ''C'', Str [], Str [], Str [], Str [], Str [], Str [], Str ''a''],
              [Str ''V'', Num 8, Str ''T'', Str ''C'', Str [], Str [], Str [], Str [], Str [], Str [], Str ''b''],
              [Str ''V'', Num 7, Str ''T'', Str ''C'', Str [], Str [], Str [], Str [], Str [], Str [], Str ''a'']])
     [] Map.empty id
     = Inr (map (\<lambda>(n, t, grp). \<lparr>id_ov = ''overlay-'' @ n, timestamp = t, title = Str ''T'',
                  content = Str ''C'', type_ov = ''info'', nextAction = ''continue'', actionParam = Null,
                  options = [], explanation = Str [], correctFeedback = Str [], incorrectFeedback = Str [],
                  groupName = Str grp, image_ov = None\<rparr>)
             [(''1'', 9, ''a''), (''2'', 8, ''b''), (''3'', 7, ''a'')],
            [''b'' \<mapsto> [''overlay-2''], ''a'' \<mapsto> [''overlay-1'', ''overlay-3'']], id)
   \<and> (\<exists>res. getOverlaysForVideo
          (Some [[Str ''Video Title''],
              [Str ''V'', Num 9, Str ''T'', Str ''C'', Str [], Str [], Str [], Str [], Str [], Str [], Str ''a''],
              [Str ''V'', Num 8, Str ''T'', Str ''C'', Str [], Str [], Str [], Str [], Str [], Str [], Str ''b''],
              [Str ''V'', Num 7, Str ''T'', Str ''C'', Str [], Str [], Str [], Str [], Str [], Str [], Str ''a'']])
          (Str ''V'') id = Inr res
        \<and> groups res ''a'' = Some [''overlay-1'', ''overlay-3'']
        \<and> groups res ''b'' = Some [''overlay-2'']
        \<and> groups res ''c'' = None)"
  (is "?scan = Inr (?ovs, ?grp, id) \<and> (\<exists>res. ?get = Inr res \<and> ?P res)")
proof -
  have h: "?scan = Inr (?ovs, ?grp, id)"
    by (simp add: row_eval_defs)
  from getOverlaysForVideo_groups_row_order [OF h]
  obtain res where r: "?get = Inr res"
    and g: "\<forall>name. groups res name =
           (if groupMemberIds name ?ovs = [] then None else Some (groupMemberIds name ?ovs))"
    by (elim exE conjE)
  have "?P res"
    by (simp add: g groupMemberIds_def)
  then show ?thesis
    using h r by (intro conjI exI [of _ res]) simp_all
qed

section \<open>The student report\<close>

text \<open>
  Claim C8. When the Quiz Analytics sheet has no row for the session and the video,
  \<open>getStudentReport\<close> returns a report with \<open>totalQuestions = 0\<close> and
  \<open>accuracyPercentage = 0\<close>: the division by \<open>totalQuestions\<close>, which would give
  \<open>NaN\<close>, is behind the guard and is not performed. The feedback of the summary is
  \<^verbatim>\<open>"No quiz data available for this session."\<close>.
\<close>

theorem getStudentReport_no_attempts:
  assumes "filter (\<lambda>row. cellAt row 8 = sessionId \<and> cellAt row 2 = videoTitle) (drop 1 analyticsData) = []"
  shows "\<exists>rep. getStudentReport (Some analyticsData) userDataSheet notesSheet videoTitle sessionId userId = Inr rep
     \<and> totalQuestions (quizPerformance rep) = 0
     \<and> accuracyPercentage (quizPerformance rep) = Fin 0
     \<and> feedback_sum (summary rep) = ''No quiz data available for this session.''"
  using quizLoop_no_match [OF assms,
      of "\<lparr>totalQuestions = 0, correctAnswers = 0, incorrectAnswers = 0,
           accuracyPercentage = Fin 0, quizDetails = []\<rparr>"]
  by (simp add: getStudentReport_def Let_def generateReportSummary_no_quiz)

theorem getStudentReport_no_attempts_witness:
  "filter (\<lambda>row. cellAt row 8 = Str ''s1'' \<and> cellAt row 2 = Str ''V'')
     (drop 1 [[Str ''Timestamp''],
              [Str ''t'', Str ''u'', Str ''V'', Str ''overlay-1'', Str ''quiz'', Bool True, Str ''x'', Num 3, Str ''s2'']]) = []
   \<and> (\<exists>rep. getStudentReport
          (Some [[Str ''Timestamp''],
                 [Str ''t'', Str ''u'', Str ''V'', Str ''overlay-1'', Str ''quiz'', Bool True, Str ''x'', Num 3, Str ''s2'']])
          None None (Str ''V'') (Str ''s1'') (Str ''u'') = Inr rep
        \<and> totalQuestions (quizPerformance rep) = 0
        \<and> accuracyPercentage (quizPerformance rep) = Fin 0
        \<and> feedback_sum (summary rep) = ''No quiz data available for this session.'')"
  (is "?h \<and> ?c")
proof -
  have h: ?h
    by (simp add: cellAt_def)
  have ?c
    by (rule getStudentReport_no_attempts [OF h])
  with h show ?thesis ..
qed

text \<open>Without the Quiz Analytics sheet there is no report, and the summary of the error
  object carries the same feedback.\<close>

lemma getStudentReport_no_sheet:
  "getStudentReport None userDataSheet notesSheet videoTitle sessionId userId = Inl (e, s) \<Longrightarrow>
   feedback_sum s = ''No quiz data available for this session.''"
  by (auto simp: getStudentReport_def createDefaultReportSummary_def)

end
